theory Spec2Isabelle
  imports Complex_Main
begin

section \<open>Numeric values, vectors and matrices\<close>

text \<open>
  The module \<^verbatim>\<open>moments/LD/Numerics.py\<close> works on numpy arrays of Python floats.
  Numbers are modelled as exact reals: rounding of IEEE doubles is not represented, so
  every statement below is about the arithmetic the code writes down, carried out exactly.
  A one-dimensional array is a list of reals, a matrix (dense \<^verbatim>\<open>np.ndarray\<close> or sparse
  \<^verbatim>\<open>csc_matrix\<close> alike) is a list of rows. The operands the code combines are produced
  by the operator builders for one population count, hence of conformant shape; numpy's
  shape errors for non-conformant operands are not modelled.
\<close>

type_synonym vec = "real list"
type_synonym mat = "real list list"

definition eye :: "nat \<Rightarrow> mat" where
  "eye n = map (\<lambda>i. map (\<lambda>j. if i = j then 1 else 0) [0..<n]) [0..<n]"

definition shape0 :: "mat \<Rightarrow> nat" where
  "shape0 A = length A"

definition madd :: "mat \<Rightarrow> mat \<Rightarrow> mat" where
  "madd A B = map2 (map2 (+)) A B"

definition msub :: "mat \<Rightarrow> mat \<Rightarrow> mat" where
  "msub A B = map2 (map2 (-)) A B"

definition smul :: "real \<Rightarrow> mat \<Rightarrow> mat" where
  "smul c A = map (map ((*) c)) A"

definition dot :: "mat \<Rightarrow> vec \<Rightarrow> vec" where
  "dot A v = map (\<lambda>row. sum_list (map2 (*) row v)) A"

definition vadd :: "vec \<Rightarrow> vec \<Rightarrow> vec" where
  "vadd u v = map2 (+) u v"

definition vsmul :: "real \<Rightarrow> vec \<Rightarrow> vec" where
  "vsmul c v = map ((*) c) v"

definition vneg :: "vec \<Rightarrow> vec" where
  "vneg v = map uminus v"

section \<open>Errors and argument shapes\<close>

datatype error =
    ValueError string
  | IndexError
  | TypeError
  | UnboundLocalError
  | LinAlgError
  | RuntimeError

definition try_bind :: "error + 'a \<Rightarrow> ('a \<Rightarrow> error + 'b) \<Rightarrow> error + 'b" where
  "try_bind r f = (case r of Inl e \<Rightarrow> Inl e | Inr x \<Rightarrow> f x)"

text \<open>A local variable that may not have been assigned: reading it unbound raises.\<close>

definition bound :: "'a option \<Rightarrow> error + 'a" where
  "bound v = (case v of None \<Rightarrow> Inl UnboundLocalError | Some x \<Rightarrow> Inr x)"

text \<open>A list comprehension whose element expression may raise: the first error wins.\<close>

fun traverse :: "('a \<Rightarrow> error + 'b) \<Rightarrow> 'a list \<Rightarrow> error + 'b list" where
  "traverse f [] = Inr []"
| "traverse f (x # xs) =
     (case f x of
        Inl e \<Rightarrow> Inl e
      | Inr v \<Rightarrow> (case traverse f xs of Inl e \<Rightarrow> Inl e | Inr vs \<Rightarrow> Inr (v # vs)))"

text \<open>
  \<^verbatim>\<open>rho\<close> is \<^verbatim>\<open>None\<close>, a scalar (\<^verbatim>\<open>np.isscalar\<close>) or a list
  (\<^verbatim>\<open>hasattr(rho, "__len__")\<close>). A selfing-rate argument is \<^verbatim>\<open>None\<close>, a scalar or a
  list. The size argument \<^verbatim>\<open>nu\<close> of \<^verbatim>\<open>integrate\<close> is a vector or a callable.
\<close>

datatype rho_arg = RhoNone | RhoScalar real | RhoList "real list"

datatype selfing_arg = SelfNone | SelfScalar real | SelfList "real list"

datatype nu_arg = NuFixed "real list" | NuCallable "real \<Rightarrow> real list"

type_synonym frozen = "bool list option"
type_synonym selfing = "real option list option"

section \<open>External collaborators\<close>

text \<open>
  The operator builders of the module \<^verbatim>\<open>Matrices\<close> and the numpy/scipy routines
  \<^verbatim>\<open>np.linalg.inv\<close> and \<^verbatim>\<open>scipy.sparse.linalg.factorized\<close> are not part of
  \<^verbatim>\<open>Numerics.py\<close>; they are parameters of the model. The inverse and the factorization
  fail on a singular matrix (\<^verbatim>\<open>LinAlgError\<close>, \<^verbatim>\<open>RuntimeError\<close>): \<open>None\<close>.
\<close>

record ext =
  Matrices_drift_h :: "nat \<Rightarrow> real list \<Rightarrow> frozen \<Rightarrow> mat"
  Matrices_drift_ld :: "nat \<Rightarrow> real list \<Rightarrow> frozen \<Rightarrow> mat"
  Matrices_mutation_h :: "nat \<Rightarrow> real \<Rightarrow> frozen \<Rightarrow> selfing \<Rightarrow> vec"
  Matrices_mutation_ld :: "nat \<Rightarrow> real \<Rightarrow> frozen \<Rightarrow> selfing \<Rightarrow> mat"
  Matrices_recombination :: "nat \<Rightarrow> real \<Rightarrow> frozen \<Rightarrow> selfing \<Rightarrow> mat"
  Matrices_migration_h :: "nat \<Rightarrow> real list list \<Rightarrow> frozen \<Rightarrow> mat"
  Matrices_migration_ld :: "nat \<Rightarrow> real list list \<Rightarrow> frozen \<Rightarrow> mat"
  linalg_inv :: "mat \<Rightarrow> mat option"
  factorized :: "mat \<Rightarrow> (vec \<Rightarrow> vec) option"

definition np_linalg_inv :: "ext \<Rightarrow> mat \<Rightarrow> error + mat" where
  "np_linalg_inv X A = (case linalg_inv X A of None \<Rightarrow> Inl LinAlgError | Some B \<Rightarrow> Inr B)"

definition sp_factorized :: "ext \<Rightarrow> mat \<Rightarrow> error + (vec \<Rightarrow> vec)" where
  "sp_factorized X A = (case factorized X A of None \<Rightarrow> Inl RuntimeError | Some f \<Rightarrow> Inr f)"

section \<open>Equilibrium solvers\<close>

definition equilibrium_ld :: "ext \<Rightarrow> real \<Rightarrow> real \<Rightarrow> real option \<Rightarrow> error + vec" where
  "equilibrium_ld X theta rho selfing_rate =
     (let h_ss = (case selfing_rate of
                    None \<Rightarrow> [theta]
                  | Some f \<Rightarrow> [theta * (1 - f / 2)]);
          U = Matrices_mutation_ld X 1 theta None (Some [selfing_rate]);
          R = Matrices_recombination X 1 rho None (Some [selfing_rate]);
          D = Matrices_drift_ld X 1 [1] None
      in try_bind (sp_factorized X (madd D R)) (\<lambda>solve. Inr (solve (vneg (dot U h_ss)))))"

text \<open>The checks of \<^verbatim>\<open>steady_state\<close> on \<^verbatim>\<open>rho\<close>, in the order of the source.\<close>

definition check_rho :: "string \<Rightarrow> string \<Rightarrow> rho_arg \<Rightarrow> error + unit" where
  "check_rho msg_scalar msg_list rho =
     (case rho of
        RhoNone \<Rightarrow> Inr ()
      | RhoScalar r \<Rightarrow> if r < 0 then Inl (ValueError msg_scalar) else Inr ()
      | RhoList rs \<Rightarrow> if list_ex (\<lambda>r. r < 0) rs then Inl (ValueError msg_list) else Inr ())"

text \<open>A recombination rate below zero, as \<^verbatim>\<open>rho < 0\<close> or as an entry of the list.\<close>

definition negative_rho :: "rho_arg \<Rightarrow> bool" where
  "negative_rho rho =
     (case rho of
        RhoNone \<Rightarrow> False
      | RhoScalar r \<Rightarrow> r < 0
      | RhoList rs \<Rightarrow> list_ex (\<lambda>r. r < 0) rs)"

definition steady_state :: "ext \<Rightarrow> real \<Rightarrow> rho_arg \<Rightarrow> selfing_arg \<Rightarrow> error + vec list" where
  "steady_state X theta rho selfing_rate =
     (if theta \<le> 0 then Inl (ValueError ''theta must be positive'')
      else try_bind (check_rho ''rho cannot be negative'' ''rho values cannot be negative'' rho)
        (\<lambda>_. try_bind
           (case selfing_rate of
              SelfNone \<Rightarrow> Inr ([theta], None)
            | SelfList _ \<Rightarrow> Inl (ValueError ''selfing rate must be a scalar'')
            | SelfScalar f \<Rightarrow>
                if f < 0 \<or> f > 1 then Inl (ValueError ''selfing rate must be between 0 and 1'')
                else Inr ([theta * (1 - f / 2)], Some f))
           (\<lambda>(h_ss, sr).
              case rho of
                RhoList rs \<Rightarrow>
                  try_bind (traverse (\<lambda>r. equilibrium_ld X theta r sr) rs)
                    (\<lambda>ys_ss. Inr (ys_ss @ [h_ss]))
              | RhoScalar r \<Rightarrow>
                  try_bind (equilibrium_ld X theta r sr) (\<lambda>y_ss. Inr [y_ss, h_ss])
              | RhoNone \<Rightarrow> Inr [h_ss])))"

text \<open>Python indexing with a non-negative index.\<close>

definition py_index :: "'a list \<Rightarrow> nat \<Rightarrow> error + 'a" where
  "py_index xs i = (if i < length xs then Inr (xs ! i) else Inl IndexError)"

definition two_pop_ld_ss ::
  "ext \<Rightarrow> real \<Rightarrow> real \<Rightarrow> real \<Rightarrow> real \<Rightarrow> real \<Rightarrow> real \<Rightarrow> selfing \<Rightarrow> vec \<Rightarrow> error + vec" where
  "two_pop_ld_ss X nu0 nu1 m01 m10 theta rho selfing_rate h_ss =
     (let U = Matrices_mutation_ld X 2 theta None selfing_rate;
          R = Matrices_recombination X 2 rho None selfing_rate;
          D = Matrices_drift_ld X 2 [nu0, nu1] None;
          M = Matrices_migration_ld X 2 [[0, m01], [m10, 0]] None
      in try_bind (sp_factorized X (madd (madd D R) M))
           (\<lambda>solve. Inr (solve (vneg (dot U h_ss)))))"

definition steady_state_two_pop ::
  "ext \<Rightarrow> real list \<Rightarrow> real list list \<Rightarrow> rho_arg \<Rightarrow> real \<Rightarrow> selfing_arg \<Rightarrow> error + vec list" where
  "steady_state_two_pop X nus m rho theta selfing_rate =
     (case nus of
        [nu0, nu1] \<Rightarrow>
          try_bind (try_bind (py_index m 0) (\<lambda>row. py_index row 1)) (\<lambda>m01.
          try_bind (try_bind (py_index m 1) (\<lambda>row. py_index row 0)) (\<lambda>m10.
          try_bind (check_rho ''recombination rate cannot be negative''
                              ''recombination rate cannot be negative'' rho) (\<lambda>_.
          if theta \<le> 0 then Inl (ValueError ''mutation rate must be positive'')
          else if m01 \<le> 0 \<or> m10 \<le> 0 \<or> nu0 \<le> 0 \<or> nu1 \<le> 0 then
            Inl (ValueError ''migration rates and relative population sizes must be positive'')
          else try_bind
            (case selfing_rate of
               SelfNone \<Rightarrow> Inr [0, 0]
             | SelfScalar _ \<Rightarrow> Inl (ValueError ''selfing rates must be given as list of length 2'')
             | SelfList fs \<Rightarrow>
                 if length fs \<noteq> 2 then
                   Inl (ValueError ''selfing rates must be given as list of length 2'')
                 else if list_ex (\<lambda>f. f < 0 \<or> f > 1) fs then
                   Inl (ValueError ''selfing rates must be between 0 and 1'')
                 else Inr fs)
            (\<lambda>fs.
               let sr = Some (map Some fs);
                   Mh = Matrices_migration_h X 2 [[0, m01], [m10, 0]] None;
                   Dh = Matrices_drift_h X 2 [nu0, nu1] None;
                   Uh = Matrices_mutation_h X 2 theta None sr
               in try_bind (np_linalg_inv X (madd Mh Dh)) (\<lambda>inv_h.
                  let h_ss = dot inv_h (vneg Uh) in
                  case rho of
                    RhoNone \<Rightarrow> Inr [h_ss]
                  | RhoScalar r \<Rightarrow>
                      try_bind (two_pop_ld_ss X nu0 nu1 m01 m10 theta r sr h_ss)
                        (\<lambda>y_ss. Inr [y_ss, h_ss])
                  | RhoList rs \<Rightarrow>
                      try_bind (traverse (\<lambda>r. two_pop_ld_ss X nu0 nu1 m01 m10 theta r sr h_ss) rs)
                        (\<lambda>y_ss. Inr (y_ss @ [h_ss])))))))
      | _ \<Rightarrow>
          Inl (ValueError (if length nus < 2 then ''not enough values to unpack''
                           else ''too many values to unpack'')))"

section \<open>Transition matrices\<close>

text \<open>
  \<^verbatim>\<open>recombination\<close> returns one matrix for a scalar \<^verbatim>\<open>rho\<close> and a list of matrices
  for a list; the integrator keeps the same one-or-many shape for its LD operators.
\<close>

datatype 'a one_or_many = One 'a | Many "'a list"

definition drift :: "ext \<Rightarrow> nat \<Rightarrow> real list \<Rightarrow> frozen \<Rightarrow> rho_arg \<Rightarrow> mat \<times> mat option" where
  "drift X num_pops nus frozen rho =
     (Matrices_drift_h X num_pops nus frozen,
      if rho \<noteq> RhoNone then Some (Matrices_drift_ld X num_pops nus frozen) else None)"

definition mutation ::
  "ext \<Rightarrow> nat \<Rightarrow> real \<Rightarrow> frozen \<Rightarrow> selfing \<Rightarrow> rho_arg \<Rightarrow> vec \<times> mat option" where
  "mutation X num_pops theta frozen selfing rho =
     (Matrices_mutation_h X num_pops theta frozen selfing,
      if rho \<noteq> RhoNone then Some (Matrices_mutation_ld X num_pops theta frozen selfing)
      else None)"

fun recombination ::
  "ext \<Rightarrow> nat \<Rightarrow> rho_arg \<Rightarrow> frozen \<Rightarrow> selfing \<Rightarrow> error + mat one_or_many" where
  "recombination X num_pops (RhoScalar r) frozen selfing =
     Inr (One (Matrices_recombination X num_pops r frozen selfing))"
| "recombination X num_pops (RhoList rs) frozen selfing =
     Inr (Many (map (\<lambda>r. Matrices_recombination X num_pops r frozen selfing) rs))"
| "recombination X num_pops RhoNone frozen selfing = Inl TypeError"

definition migration ::
  "ext \<Rightarrow> nat \<Rightarrow> real list list \<Rightarrow> frozen \<Rightarrow> rho_arg \<Rightarrow> mat \<times> mat option" where
  "migration X num_pops m frozen rho =
     (Matrices_migration_h X num_pops m frozen,
      if rho \<noteq> RhoNone then Some (Matrices_migration_ld X num_pops m frozen) else None)"

section \<open>The time integrator\<close>

text \<open>The keyword arguments of \<^verbatim>\<open>integrate\<close>.\<close>

record args =
  a_Y :: "vec list"
  a_nu :: nu_arg
  a_T :: real
  a_dt :: real
  a_theta :: real
  a_rho :: rho_arg
  a_m :: "real list list option"
  a_num_pops :: "nat option"
  a_selfing :: selfing
  a_frozen :: frozen

text \<open>
  What is fixed before the stepping loop starts: the arguments the loop reads and the
  operators built once (\<^verbatim>\<open>Uh\<close>, \<^verbatim>\<open>Uld\<close>, \<^verbatim>\<open>R\<close>, \<^verbatim>\<open>Mh\<close>, \<^verbatim>\<open>Mld\<close>). A variable
  the source leaves unassigned is \<open>None\<close>.
\<close>

record env =
  e_X :: ext
  e_num_pops :: nat
  e_nu :: nu_arg
  e_T :: real
  e_rho :: rho_arg
  e_m :: "real list list option"
  e_frozen :: frozen
  e_Uh :: vec
  e_Uld :: "mat option"
  e_R :: "mat one_or_many option"
  e_M :: "(mat \<times> mat option) option"

text \<open>
  The matrices the loop keeps between steps: the explicit half-step matrices
  \<^verbatim>\<open>Ab1_h\<close>, \<^verbatim>\<open>Ab1_ld\<close>, the dense inverse \<^verbatim>\<open>Ab2_h\<close> and the factorized solvers
  \<^verbatim>\<open>Ab2_ld\<close>.
\<close>

record cache =
  c_Ab1_h :: mat
  c_Ab2_h :: mat
  c_Ab1_ld :: "mat one_or_many option"
  c_Ab2_ld :: "(vec \<Rightarrow> vec) one_or_many option"

text \<open>The local variables of the loop; \<open>l_cache = None\<close> before the first assembly.\<close>

record lstate =
  l_h :: vec
  l_y :: "vec option"
  l_ys :: "vec list option"
  l_dt :: real
  l_nus :: "real list"
  l_dt_last :: real
  l_nus_last :: "real list"
  l_elapsed_t :: real
  l_cache :: "cache option"

text \<open>\<^verbatim>\<open>num_pops > 1 and m is not None and np.any(np.array(m) != 0)\<close>\<close>

definition use_migration :: "nat \<Rightarrow> real list list option \<Rightarrow> bool" where
  "use_migration num_pops m =
     (num_pops > 1 \<and> (case m of None \<Rightarrow> False | Some mm \<Rightarrow> list_ex (list_ex (\<lambda>x. x \<noteq> 0)) mm))"

text \<open>An operand that is \<^verbatim>\<open>None\<close> where a matrix is needed, and the two shapes.\<close>

definition operand :: "'a option \<Rightarrow> error + 'a" where
  "operand v = (case v of None \<Rightarrow> Inl TypeError | Some x \<Rightarrow> Inr x)"

definition as_one :: "'a one_or_many \<Rightarrow> error + 'a" where
  "as_one v = (case v of One x \<Rightarrow> Inr x | Many _ \<Rightarrow> Inl TypeError)"

definition as_many :: "'a one_or_many \<Rightarrow> error + 'a list" where
  "as_many v = (case v of One _ \<Rightarrow> Inl TypeError | Many xs \<Rightarrow> Inr xs)"

text \<open>\<^verbatim>\<open>[xs[i] for i in range(n)]\<close>\<close>

definition for_range :: "nat \<Rightarrow> 'a list \<Rightarrow> error + 'a list" where
  "for_range n xs = (if n \<le> length xs then Inr (take n xs) else Inl IndexError)"

text \<open>
  The combined operators \<^verbatim>\<open>Ab_h\<close> and \<^verbatim>\<open>Ab_ld\<close> for the sizes \<open>nus\<close>: drift plus
  migration (when there is any) plus recombination.
\<close>

definition combine :: "env \<Rightarrow> real list \<Rightarrow> error + (mat \<times> mat one_or_many option)" where
  "combine E nus =
     (case drift (e_X E) (e_num_pops E) nus (e_frozen E) (e_rho E) of (Dh, Dld) \<Rightarrow>
        if use_migration (e_num_pops E) (e_m E) then
          try_bind (bound (e_M E)) (\<lambda>(Mh, Mld).
            let Ab_h = madd Dh Mh in
            case e_rho E of
              RhoNone \<Rightarrow> Inr (Ab_h, None)
            | RhoScalar _ \<Rightarrow>
                try_bind (operand Dld) (\<lambda>D. try_bind (operand Mld) (\<lambda>M.
                try_bind (try_bind (bound (e_R E)) as_one) (\<lambda>R.
                  Inr (Ab_h, Some (One (madd (madd D M) R))))))
            | RhoList rs \<Rightarrow>
                try_bind (operand Dld) (\<lambda>D. try_bind (operand Mld) (\<lambda>M.
                try_bind (try_bind (try_bind (bound (e_R E)) as_many) (for_range (length rs)))
                  (\<lambda>Rs. Inr (Ab_h, Some (Many (map (\<lambda>R. madd (madd D M) R) Rs)))))))
        else
          (let Ab_h = Dh in
           case e_rho E of
             RhoNone \<Rightarrow> Inr (Ab_h, None)
           | RhoScalar _ \<Rightarrow>
               try_bind (operand Dld) (\<lambda>D.
               try_bind (try_bind (bound (e_R E)) as_one) (\<lambda>R.
                 Inr (Ab_h, Some (One (madd D R)))))
           | RhoList rs \<Rightarrow>
               try_bind (operand Dld) (\<lambda>D.
               try_bind (try_bind (try_bind (bound (e_R E)) as_many) (for_range (length rs)))
                 (\<lambda>Rs. Inr (Ab_h, Some (Many (map (\<lambda>R. madd D R) Rs)))))))"

text \<open>The explicit and the implicit half-step matrix of one subsystem.\<close>

definition half_forward :: "real \<Rightarrow> mat \<Rightarrow> mat" where
  "half_forward dt A = madd (eye (shape0 A)) (smul (dt / 2) A)"

definition half_backward :: "real \<Rightarrow> mat \<Rightarrow> mat" where
  "half_backward dt A = msub (eye (shape0 A)) (smul (dt / 2) A)"

text \<open>The block that recomputes the matrices for the step size \<open>dt\<close> and sizes \<open>nus\<close>.\<close>

definition assemble :: "env \<Rightarrow> real \<Rightarrow> real list \<Rightarrow> error + cache" where
  "assemble E dt nus =
     try_bind (combine E nus) (\<lambda>(Ab_h, Ab_ld).
       let Ab1_h = half_forward dt Ab_h in
       try_bind (np_linalg_inv (e_X E) (half_backward dt Ab_h)) (\<lambda>Ab2_h.
         case e_rho E of
           RhoNone \<Rightarrow>
             Inr \<lparr>c_Ab1_h = Ab1_h, c_Ab2_h = Ab2_h, c_Ab1_ld = None, c_Ab2_ld = None\<rparr>
         | RhoScalar _ \<Rightarrow>
             try_bind (try_bind (bound Ab_ld) as_one) (\<lambda>A.
             try_bind (sp_factorized (e_X E) (half_backward dt A)) (\<lambda>solve.
               Inr \<lparr>c_Ab1_h = Ab1_h, c_Ab2_h = Ab2_h,
                    c_Ab1_ld = Some (One (half_forward dt A)),
                    c_Ab2_ld = Some (One solve)\<rparr>))
         | RhoList rs \<Rightarrow>
             try_bind (try_bind (try_bind (bound Ab_ld) as_many) (for_range (length rs))) (\<lambda>As.
             try_bind (traverse (\<lambda>A. sp_factorized (e_X E) (half_backward dt A)) As)
               (\<lambda>solves.
                  Inr \<lparr>c_Ab1_h = Ab1_h, c_Ab2_h = Ab2_h,
                       c_Ab1_ld = Some (Many (map (half_forward dt) As)),
                       c_Ab2_ld = Some (Many solves)\<rparr>))))"

text \<open>
  \<^verbatim>\<open>[f(ops[i], ys[i]) for i in range(len(ys))]\<close>: an index past the end of \<open>ops\<close>
  raises.
\<close>

definition for_each :: "('a \<Rightarrow> vec \<Rightarrow> vec) \<Rightarrow> 'a list \<Rightarrow> vec list \<Rightarrow> error + vec list" where
  "for_each f ops ys =
     (if length ys \<le> length ops then Inr (map2 f ops ys) else Inl IndexError)"

text \<open>The forward and the backward sub-step of the LD vectors.\<close>

definition forward_ld ::
  "env \<Rightarrow> cache \<Rightarrow> real \<Rightarrow> lstate \<Rightarrow> error + (vec option \<times> vec list option)" where
  "forward_ld E c dt s =
     (case e_rho E of
        RhoNone \<Rightarrow> Inr (l_y s, l_ys s)
      | RhoScalar _ \<Rightarrow>
          try_bind (try_bind (bound (c_Ab1_ld c)) as_one) (\<lambda>A1.
          try_bind (bound (l_y s)) (\<lambda>y.
          try_bind (operand (e_Uld E)) (\<lambda>Uld.
            Inr (Some (vadd (dot A1 y) (vsmul dt (dot Uld (l_h s)))), l_ys s))))
      | RhoList _ \<Rightarrow>
          try_bind (bound (l_ys s)) (\<lambda>ys.
          try_bind (try_bind (bound (c_Ab1_ld c)) as_many) (\<lambda>A1s.
          try_bind (operand (e_Uld E)) (\<lambda>Uld.
          try_bind (for_each (\<lambda>A1 y. vadd (dot A1 y) (vsmul dt (dot Uld (l_h s)))) A1s ys)
            (\<lambda>ys'. Inr (l_y s, Some ys'))))))"

definition backward_ld ::
  "env \<Rightarrow> cache \<Rightarrow> vec option \<Rightarrow> vec list option \<Rightarrow> error + (vec option \<times> vec list option)" where
  "backward_ld E c y ys =
     (case e_rho E of
        RhoNone \<Rightarrow> Inr (y, ys)
      | RhoScalar _ \<Rightarrow>
          try_bind (try_bind (bound (c_Ab2_ld c)) as_one) (\<lambda>solve.
          try_bind (bound y) (\<lambda>y0. Inr (Some (solve y0), ys)))
      | RhoList _ \<Rightarrow>
          try_bind (bound ys) (\<lambda>ys0.
          try_bind (try_bind (bound (c_Ab2_ld c)) as_many) (\<lambda>solves.
          try_bind (for_each (\<lambda>solve y0. solve y0) solves ys0) (\<lambda>ys'. Inr (y, Some ys')))))"

text \<open>The step size and the sizes a step from \<open>s\<close> works with.\<close>

definition step_dt :: "env \<Rightarrow> lstate \<Rightarrow> real" where
  "step_dt E s =
     (if l_elapsed_t s + l_dt s > e_T E then e_T E - l_elapsed_t s else l_dt s)"

definition step_nus :: "env \<Rightarrow> lstate \<Rightarrow> real list" where
  "step_nus E s =
     (case e_nu E of
        NuCallable f \<Rightarrow> f (l_elapsed_t s + step_dt E s / 2)
      | NuFixed _ \<Rightarrow> l_nus s)"

text \<open>\<^verbatim>\<open>dt != dt_last or nus != nus_last or elapsed_t == 0\<close>\<close>

definition must_rebuild :: "env \<Rightarrow> lstate \<Rightarrow> bool" where
  "must_rebuild E s =
     (step_dt E s \<noteq> l_dt_last s \<or> step_nus E s \<noteq> l_nus_last s \<or> l_elapsed_t s = 0)"

text \<open>One pass through the body of the \<^verbatim>\<open>while\<close> loop.\<close>

definition step :: "env \<Rightarrow> lstate \<Rightarrow> error + lstate" where
  "step E s =
     (let dt = step_dt E s; nus = step_nus E s in
      try_bind (if must_rebuild E s then assemble E dt nus else bound (l_cache s)) (\<lambda>c.
      try_bind (forward_ld E c dt s) (\<lambda>(y, ys).
      let h = vadd (dot (c_Ab1_h c) (l_h s)) (vsmul dt (e_Uh E)) in
      try_bind (backward_ld E c y ys) (\<lambda>(y, ys).
      let h = dot (c_Ab2_h c) h in
      Inr (s\<lparr>l_h := h, l_y := y, l_ys := ys, l_dt := dt, l_nus := nus,
             l_dt_last := dt, l_nus_last := nus,
             l_elapsed_t := l_elapsed_t s + dt, l_cache := Some c\<rparr>)))))"

text \<open>
  \<^verbatim>\<open>while elapsed_t < T\<close>. The loop need not end (a step size of zero never advances
  the time), so not returning is the value \<open>None\<close>.
\<close>

partial_function (option) loop :: "env \<Rightarrow> lstate \<Rightarrow> (error + lstate) option" where
  "loop E s =
     (if l_elapsed_t s < e_T E then
        (case step E s of Inl e \<Rightarrow> Some (Inl e) | Inr s' \<Rightarrow> loop E s')
      else Some (Inr s))"

text \<open>The statements of \<^verbatim>\<open>integrate\<close> before the loop.\<close>

definition prepare :: "ext \<Rightarrow> args \<Rightarrow> error + (env \<times> lstate)" where
  "prepare X A =
     try_bind
       (case a_num_pops A of
          Some n \<Rightarrow> Inr n
        | None \<Rightarrow> (case a_nu A of NuFixed v \<Rightarrow> Inr (length v) | NuCallable _ \<Rightarrow> Inl TypeError))
       (\<lambda>num_pops.
     if a_Y A = [] then Inl IndexError
     else
       let Y = a_Y A;
           h = last Y;
           y = (if length Y = 2 then Some (Y ! 0) else None);
           ys = (if length Y = 2 then None else Some (butlast Y));
           nus = (case a_nu A of NuCallable f \<Rightarrow> f 0 | NuFixed v \<Rightarrow> v)
       in case mutation X num_pops (a_theta A) (a_frozen A) (a_selfing A) (a_rho A) of
            (Uh, Uld) \<Rightarrow>
       try_bind
         (if a_rho A \<noteq> RhoNone then
            try_bind (recombination X num_pops (a_rho A) (a_frozen A) (a_selfing A))
              (\<lambda>R. Inr (Some R))
          else Inr None)
         (\<lambda>R.
       let M = (if use_migration num_pops (a_m A) then
                  (case a_m A of
                     Some mm \<Rightarrow> Some (migration X num_pops mm (a_frozen A) (a_rho A))
                   | None \<Rightarrow> None)
                else None)
       in Inr (\<lparr>e_X = X, e_num_pops = num_pops, e_nu = a_nu A, e_T = a_T A,
                 e_rho = a_rho A, e_m = a_m A, e_frozen = a_frozen A,
                 e_Uh = Uh, e_Uld = Uld, e_R = R, e_M = M\<rparr>,
               \<lparr>l_h = h, l_y = y, l_ys = ys, l_dt = a_dt A, l_nus = nus,
                 l_dt_last = a_dt A, l_nus_last = nus, l_elapsed_t = 0,
                 l_cache = None\<rparr>)))"

text \<open>The statements after the loop: the vectors are written back into \<^verbatim>\<open>Y\<close>.\<close>

definition finish :: "rho_arg \<Rightarrow> vec list \<Rightarrow> lstate \<Rightarrow> error + vec list" where
  "finish rho Y s =
     (let Y1 = butlast Y @ [l_h s] in
      case rho of
        RhoScalar _ \<Rightarrow> try_bind (bound (l_y s)) (\<lambda>y. Inr (Y1[0 := y]))
      | _ \<Rightarrow> try_bind (bound (l_ys s)) (\<lambda>ys. Inr (ys @ [l_h s])))"

definition integrate :: "ext \<Rightarrow> args \<Rightarrow> (error + vec list) option" where
  "integrate X A =
     (case prepare X A of
        Inl e \<Rightarrow> Some (Inl e)
      | Inr (E, s0) \<Rightarrow>
          (case loop E s0 of
             None \<Rightarrow> None
           | Some r \<Rightarrow> Some (try_bind r (finish (a_rho A) (a_Y A)))))"

declare loop.simps [code]

text \<open>
  The states the loop passes through when started in \<open>s0\<close>: \<open>s0\<close> itself, and the
  result of a step from a state that is still short of \<open>T\<close>.
\<close>

inductive reach :: "env \<Rightarrow> lstate \<Rightarrow> lstate \<Rightarrow> bool" for E s0 where
  reach_init: "reach E s0 s0"
| reach_step:
    "reach E s0 s \<Longrightarrow> l_elapsed_t s < e_T E \<Longrightarrow> step E s = Inr s' \<Longrightarrow> reach E s0 s'"

text \<open>
  The kept matrices are those for the remembered \<^verbatim>\<open>dt_last\<close> and \<^verbatim>\<open>nus_last\<close>;
  before any assembly no time has elapsed.
\<close>

definition cache_ok :: "env \<Rightarrow> lstate \<Rightarrow> bool" where
  "cache_ok E s =
     (case l_cache s of
        None \<Rightarrow> l_elapsed_t s = 0
      | Some c \<Rightarrow> assemble E (l_dt_last s) (l_nus_last s) = Inr c)"


section \<open>A one-statistic instance\<close>

text \<open>
  A concrete set of collaborators with one heterozygosity and one LD statistic (all
  matrices are 1 by 1), on which the definitions above can be run.
\<close>

definition inv1 :: "mat \<Rightarrow> mat option" where
  "inv1 A = (case A of [[a]] \<Rightarrow> if a = 0 then None else Some [[1 / a]] | _ \<Rightarrow> None)"

definition solve1 :: "mat \<Rightarrow> (vec \<Rightarrow> vec) option" where
  "solve1 A = (case A of [[a]] \<Rightarrow> if a = 0 then None else Some (map (\<lambda>x. x / a)) | _ \<Rightarrow> None)"

definition X1 :: ext where
  "X1 = \<lparr>Matrices_drift_h = (\<lambda>n nus fr. [[- 1 / hd nus]]),
         Matrices_drift_ld = (\<lambda>n nus fr. [[- 3 / hd nus]]),
         Matrices_mutation_h = (\<lambda>n theta fr sf. [theta]),
         Matrices_mutation_ld = (\<lambda>n theta fr sf. [[theta]]),
         Matrices_recombination = (\<lambda>n rho fr sf. [[- rho]]),
         Matrices_migration_h = (\<lambda>n m fr. [[0]]),
         Matrices_migration_ld = (\<lambda>n m fr. [[0]]),
         linalg_inv = inv1,
         factorized = solve1\<rparr>"


definition A_batch :: args where
  "A_batch = \<lparr>a_Y = [[2], [3], [1]], a_nu = NuFixed [1], a_T = 1, a_dt = 2 / 5,
               a_theta = 1 / 1000, a_rho = RhoList [1, 2], a_m = None, a_num_pops = None,
               a_selfing = None, a_frozen = None\<rparr>"

definition A_growth :: args where
  "A_growth = \<lparr>a_Y = [[2], [1]], a_nu = NuCallable (\<lambda>t. [1 + t]), a_T = 1, a_dt = 2 / 5,
                a_theta = 1 / 1000, a_rho = RhoScalar 1, a_m = None, a_num_pops = Some 1,
                a_selfing = None, a_frozen = None\<rparr>"








section \<open>Error propagation\<close>

lemma try_bind_Inr [simp]: "try_bind (Inr x) f = f x"
  by (simp add: try_bind_def)

lemma try_bind_Inl [simp]: "try_bind (Inl e) f = Inl e"
  by (simp add: try_bind_def)

lemma try_bind_eq_Inr:
  "try_bind r f = Inr y \<longleftrightarrow> (\<exists>x. r = Inr x \<and> f x = Inr y)"
  by (cases r) simp_all

section \<open>The stepping loop\<close>

text \<open>What a step that succeeds leaves in the loop variables.\<close>

lemma step_fields:
  assumes "step E s = Inr s'"
  shows "l_dt s' = step_dt E s" "l_elapsed_t s' = l_elapsed_t s + step_dt E s"
    "l_dt_last s' = step_dt E s" "l_nus s' = step_nus E s" "l_nus_last s' = step_nus E s"
  using assms
  by (auto simp: step_def Let_def try_bind_eq_Inr split: prod.splits)




lemma step_cache:
  assumes "cache_ok E s" "step E s = Inr s'"
  shows "\<exists>c. l_cache s' = Some c \<and> assemble E (step_dt E s) (step_nus E s) = Inr c
           \<and> (\<not> must_rebuild E s \<longrightarrow> l_cache s = Some c)"
  using assms
  by (auto simp: step_def Let_def try_bind_eq_Inr cache_ok_def must_rebuild_def bound_def
           split: prod.splits if_splits option.splits)

lemma step_cache_ok: "cache_ok E s \<Longrightarrow> step E s = Inr s' \<Longrightarrow> cache_ok E s'"
  using step_cache [of E s s'] step_fields [of E s s']
  by (auto simp: cache_ok_def)

lemma reach_cache_ok: "reach E s0 s \<Longrightarrow> cache_ok E s0 \<Longrightarrow> cache_ok E s"
  by (induction rule: reach.induct) (auto intro: step_cache_ok)

section \<open>Equilibrium heterozygosity\<close>

text \<open>
  C4. For every \<open>\<theta> > 0\<close>, \<^verbatim>\<open>steady_state\<close> called without a selfing rate returns the
  heterozygosity vector \<open>[\<theta>]\<close> exactly, and with a scalar selfing rate \<open>f\<close> in \<open>[0, 1]\<close>
  it returns \<open>[\<theta> (1 - f/2)]\<close> exactly. Without \<^verbatim>\<open>rho\<close> that vector is the whole
  result; with \<^verbatim>\<open>rho\<close> it is the last entry of the state that is returned.
\<close>

theorem steady_state_heterozygosity:
  assumes "0 < theta"
  shows "steady_state X theta RhoNone SelfNone = Inr [[theta]] \<and>
         (0 \<le> f \<and> f \<le> 1 \<longrightarrow>
            steady_state X theta RhoNone (SelfScalar f) = Inr [[theta * (1 - f / 2)]]) \<and>
         (\<forall>Y. steady_state X theta rho SelfNone = Inr Y \<longrightarrow> last Y = [theta]) \<and>
         (\<forall>Y. 0 \<le> f \<and> f \<le> 1 \<and> steady_state X theta rho (SelfScalar f) = Inr Y \<longrightarrow>
            last Y = [theta * (1 - f / 2)])"
proof -
  have none: "steady_state X theta RhoNone SelfNone = Inr [[theta]]"
    using assms by (simp add: steady_state_def check_rho_def)
  have scalar: "steady_state X theta RhoNone (SelfScalar f) = Inr [[theta * (1 - f / 2)]]"
    if "0 \<le> f" "f \<le> 1"
    using assms that by (simp add: steady_state_def check_rho_def)
  have last_none: "last Y = [theta]" if "steady_state X theta rho SelfNone = Inr Y" for Y
    using that assms
    by (cases rho) (auto simp: steady_state_def try_bind_eq_Inr split: if_splits)
  have last_scalar: "last Y = [theta * (1 - f / 2)]"
    if "steady_state X theta rho (SelfScalar f) = Inr Y" for Y
    using that assms
    by (cases rho) (auto simp: steady_state_def try_bind_eq_Inr split: if_splits)
  from none scalar last_none last_scalar show ?thesis by blast
qed

theorem steady_state_heterozygosity_witness:
  "steady_state X1 (1 / 1000) RhoNone SelfNone = Inr [[1 / 1000]] \<and>
   steady_state X1 (1 / 1000) RhoNone (SelfScalar (1 / 2)) = Inr [[3 / 4000]] \<and>
   (\<exists>Y. steady_state X1 (1 / 1000) (RhoList [0, 10]) SelfNone = Inr Y \<and> last Y = [1 / 1000])"
proof -
  have run: "steady_state X1 (1 / 1000) (RhoList [0, 10]) SelfNone
             = Inr [[1 / 3000000], [1 / 13000000], [1 / 1000]]"
    by (simp add: steady_state_def check_rho_def equilibrium_ld_def X1_def sp_factorized_def
                  solve1_def madd_def dot_def vneg_def)
  show ?thesis
    using steady_state_heterozygosity [of "1 / 1000" X1 "1 / 2" "RhoList [0, 10]"] run
    by simp
qed

section \<open>Termination and the final step\<close>

text \<open>What \<^verbatim>\<open>integrate\<close> has set up when the loop starts.\<close>

lemma prepare_fields:
  assumes "prepare X A = Inr (E, s0)"
  shows "e_X E = X" "e_T E = a_T A" "e_rho E = a_rho A" "e_nu E = a_nu A" "e_m E = a_m A"
    "l_dt s0 = a_dt A" "l_dt_last s0 = a_dt A" "l_elapsed_t s0 = 0" "l_cache s0 = None"
    "l_h s0 = last (a_Y A)" "a_Y A \<noteq> []"
    "l_y s0 = (if length (a_Y A) = 2 then Some (a_Y A ! 0) else None)"
    "l_ys s0 = (if length (a_Y A) = 2 then None else Some (butlast (a_Y A)))"
    "l_nus s0 = (case a_nu A of NuCallable f \<Rightarrow> f 0 | NuFixed v \<Rightarrow> v)"
    "l_nus_last s0 = l_nus s0"
  using assms
  by (auto simp: prepare_def Let_def try_bind_eq_Inr split: prod.splits if_splits)





section \<open>One integration step\<close>

text \<open>What a list comprehension over fallible elements returns.\<close>

lemma traverse_Inr:
  "traverse f xs = Inr ys \<Longrightarrow>
     length ys = length xs \<and> (\<forall>i < length xs. f (xs ! i) = Inr (ys ! i))"
proof (induction xs arbitrary: ys)
  case Nil
  then show ?case by simp
next
  case (Cons x xs)
  from Cons.prems obtain v vs where v: "f x = Inr v" and vs: "traverse f xs = Inr vs"
    and ys: "ys = v # vs"
    by (auto split: sum.splits)
  from Cons.IH [OF vs] v ys show ?case
    by (auto simp: nth_Cons split: nat.splits)
qed

lemma traverse_Inr_iff:
  "traverse f xs = Inr ys \<longleftrightarrow>
     length ys = length xs \<and> (\<forall>i < length xs. f (xs ! i) = Inr (ys ! i))"
proof
  assume "traverse f xs = Inr ys"
  then show "length ys = length xs \<and> (\<forall>i < length xs. f (xs ! i) = Inr (ys ! i))"
    by (rule traverse_Inr)
next
  show "length ys = length xs \<and> (\<forall>i < length xs. f (xs ! i) = Inr (ys ! i)) \<Longrightarrow>
        traverse f xs = Inr ys"
  proof (induction xs arbitrary: ys)
    case Nil
    then show ?case by simp
  next
    case (Cons x xs)
    then obtain v vs where ys: "ys = v # vs" by (cases ys) auto
    with Cons.prems have "f x = Inr v" by auto
    moreover have "traverse f xs = Inr vs"
      using Cons.prems ys by (intro Cons.IH) auto
    ultimately show ?case using ys by simp
  qed
qed

text \<open>The parts of a step that succeeds, and of the matrices it assembles.\<close>

lemma step_parts:
  assumes "step E s = Inr s'"
  shows "\<exists>c y1 ys1.
    (if must_rebuild E s then assemble E (step_dt E s) (step_nus E s) else bound (l_cache s))
       = Inr c \<and>
    forward_ld E c (step_dt E s) s = Inr (y1, ys1) \<and>
    backward_ld E c y1 ys1 = Inr (l_y s', l_ys s') \<and>
    l_h s' = dot (c_Ab2_h c) (vadd (dot (c_Ab1_h c) (l_h s)) (vsmul (step_dt E s) (e_Uh E))) \<and>
    l_cache s' = Some c"
  using assms
  by (auto simp: step_def Let_def try_bind_eq_Inr split: prod.splits)

lemma combine_many_length:
  assumes "combine E nus = Inr (Ab_h, Some (Many As))" "e_rho E = RhoList rs"
  shows "length As = length rs"
  using assms
  by (auto simp: combine_def try_bind_eq_Inr for_range_def split: prod.splits if_splits)

lemma assemble_parts:
  assumes "assemble E dt nus = Inr c"
  shows "\<exists>Ab_h Ab_ld.
     combine E nus = Inr (Ab_h, Ab_ld) \<and>
     c_Ab1_h c = half_forward dt Ab_h \<and>
     linalg_inv (e_X E) (half_backward dt Ab_h) = Some (c_Ab2_h c) \<and>
     (case e_rho E of
        RhoNone \<Rightarrow> True
      | RhoScalar _ \<Rightarrow>
          (\<exists>A solve. Ab_ld = Some (One A) \<and> c_Ab1_ld c = Some (One (half_forward dt A)) \<and>
             c_Ab2_ld c = Some (One solve) \<and>
             factorized (e_X E) (half_backward dt A) = Some solve)
      | RhoList _ \<Rightarrow>
          (\<exists>As solves. Ab_ld = Some (Many As) \<and>
             c_Ab1_ld c = Some (Many (map (half_forward dt) As)) \<and>
             c_Ab2_ld c = Some (Many solves) \<and> length solves = length As \<and>
             (\<forall>i < length As. factorized (e_X E) (half_backward dt (As ! i)) = Some (solves ! i))))"
proof -
  from assms obtain Ab_h Ab_ld Ab2_h where
    cmb: "combine E nus = Inr (Ab_h, Ab_ld)"
    and inv: "np_linalg_inv (e_X E) (half_backward dt Ab_h) = Inr Ab2_h"
    and rest: "(case e_rho E of
           RhoNone \<Rightarrow>
             Inr \<lparr>c_Ab1_h = half_forward dt Ab_h, c_Ab2_h = Ab2_h, c_Ab1_ld = None, c_Ab2_ld = None\<rparr>
         | RhoScalar _ \<Rightarrow>
             try_bind (try_bind (bound Ab_ld) as_one) (\<lambda>A.
             try_bind (sp_factorized (e_X E) (half_backward dt A)) (\<lambda>solve.
               Inr \<lparr>c_Ab1_h = half_forward dt Ab_h, c_Ab2_h = Ab2_h,
                    c_Ab1_ld = Some (One (half_forward dt A)),
                    c_Ab2_ld = Some (One solve)\<rparr>))
         | RhoList rs \<Rightarrow>
             try_bind (try_bind (try_bind (bound Ab_ld) as_many) (for_range (length rs))) (\<lambda>As.
             try_bind (traverse (\<lambda>A. sp_factorized (e_X E) (half_backward dt A)) As)
               (\<lambda>solves.
                  Inr \<lparr>c_Ab1_h = half_forward dt Ab_h, c_Ab2_h = Ab2_h,
                       c_Ab1_ld = Some (Many (map (half_forward dt) As)),
                       c_Ab2_ld = Some (Many solves)\<rparr>))) = Inr c"
    by (auto simp: assemble_def Let_def try_bind_eq_Inr split: prod.splits)
  have inv': "linalg_inv (e_X E) (half_backward dt Ab_h) = Some Ab2_h"
    using inv by (simp add: np_linalg_inv_def split: option.splits)
  show ?thesis
  proof (cases "e_rho E")
    case RhoNone
    with rest cmb inv' show ?thesis by auto
  next
    case (RhoScalar r)
    with rest obtain A solve where "Ab_ld = Some (One A)"
      "sp_factorized (e_X E) (half_backward dt A) = Inr solve"
      "c = \<lparr>c_Ab1_h = half_forward dt Ab_h, c_Ab2_h = Ab2_h,
                    c_Ab1_ld = Some (One (half_forward dt A)),
                    c_Ab2_ld = Some (One solve)\<rparr>"
      by (auto simp: try_bind_eq_Inr bound_def as_one_def split: option.splits one_or_many.splits)
    with cmb inv' RhoScalar show ?thesis
      by (auto simp: sp_factorized_def split: option.splits)
  next
    case (RhoList rs)
    with rest obtain As0 As solves where a: "Ab_ld = Some (Many As0)"
      "for_range (length rs) As0 = Inr As"
      "traverse (\<lambda>A. sp_factorized (e_X E) (half_backward dt A)) As = Inr solves"
      "c = \<lparr>c_Ab1_h = half_forward dt Ab_h, c_Ab2_h = Ab2_h,
                       c_Ab1_ld = Some (Many (map (half_forward dt) As)),
                       c_Ab2_ld = Some (Many solves)\<rparr>"
      by (auto simp: try_bind_eq_Inr bound_def as_many_def split: option.splits one_or_many.splits)
    from cmb a(1) RhoList have "length As0 = length rs" by (auto dest: combine_many_length)
    with a(2) have As: "As = As0" by (simp add: for_range_def)
    from traverse_Inr [OF a(3)] have
      "length solves = length As"
      "\<forall>i < length As. factorized (e_X E) (half_backward dt (As ! i)) = Some (solves ! i)"
      by (auto simp: sp_factorized_def split: option.splits)
    with cmb inv' RhoList a As show ?thesis by auto
  qed
qed

lemma for_each_Inr:
  assumes "for_each f ops ys = Inr zs"
  shows "length ys \<le> length ops \<and> length zs = length ys \<and>
         (\<forall>i < length ys. zs ! i = f (ops ! i) (ys ! i))"
  using assms by (auto simp: for_each_def split: if_splits)

lemma ld_substeps_none:
  assumes "e_rho E = RhoNone" "forward_ld E c dt s = Inr (y1, ys1)"
    "backward_ld E c y1 ys1 = Inr (y2, ys2)"
  shows "y2 = l_y s \<and> ys2 = l_ys s"
  using assms by (auto simp: forward_ld_def backward_ld_def)

lemma ld_substeps_scalar:
  assumes "e_rho E = RhoScalar r" "forward_ld E c dt s = Inr (y1, ys1)"
    "backward_ld E c y1 ys1 = Inr (y2, ys2)"
    "c_Ab1_ld c = Some (One A1)" "c_Ab2_ld c = Some (One solve)"
  shows "\<exists>y Uld. l_y s = Some y \<and> e_Uld E = Some Uld \<and>
           y2 = Some (solve (vadd (dot A1 y) (vsmul dt (dot Uld (l_h s))))) \<and> ys2 = l_ys s"
  using assms
  by (auto simp: forward_ld_def backward_ld_def try_bind_eq_Inr bound_def operand_def as_one_def
           split: option.splits)

lemma ld_substeps_list:
  assumes "e_rho E = RhoList rs" "forward_ld E c dt s = Inr (y1, ys1)"
    "backward_ld E c y1 ys1 = Inr (y2, ys2)"
    "c_Ab1_ld c = Some (Many A1s)" "c_Ab2_ld c = Some (Many solves)"
    "length solves = length A1s"
  shows "\<exists>ys Uld ys'. l_ys s = Some ys \<and> e_Uld E = Some Uld \<and> length ys \<le> length A1s \<and>
           ys2 = Some ys' \<and> length ys' = length ys \<and> y2 = l_y s \<and>
           (\<forall>i < length ys. ys' ! i =
               (solves ! i) (vadd (dot (A1s ! i) (ys ! i)) (vsmul dt (dot Uld (l_h s)))))"
proof -
  from assms(1,2,4) obtain ys Uld zs where fw: "l_ys s = Some ys" "e_Uld E = Some Uld"
    "for_each (\<lambda>A1 y. vadd (dot A1 y) (vsmul dt (dot Uld (l_h s)))) A1s ys = Inr zs"
    "y1 = l_y s" "ys1 = Some zs"
    by (auto simp: forward_ld_def try_bind_eq_Inr bound_def operand_def as_many_def
             split: option.splits)
  from assms(1,3,5) fw(5) obtain ys' where bw:
    "for_each (\<lambda>solve y0. solve y0) solves zs = Inr ys'" "y2 = y1" "ys2 = Some ys'"
    by (auto simp: backward_ld_def try_bind_eq_Inr bound_def as_many_def split: option.splits)
  note a = for_each_Inr [OF fw(3)] and b = for_each_Inr [OF bw(1)]
  from a b have "\<forall>i < length ys. ys' ! i =
               (solves ! i) (vadd (dot (A1s ! i) (ys ! i)) (vsmul dt (dot Uld (l_h s))))"
    by simp
  with a b fw bw show ?thesis by simp
qed

lemma prepare_cache_ok: "prepare X A = Inr (E, s0) \<Longrightarrow> cache_ok E s0"
  by (simp add: cache_ok_def prepare_fields)

lemma prepare_operators:
  assumes "prepare X A = Inr (E, s0)"
  shows "e_Uh E = Matrices_mutation_h X (e_num_pops E) (a_theta A) (a_frozen A) (a_selfing A)"
    and "a_rho A \<noteq> RhoNone \<Longrightarrow>
         e_Uld E = Some (Matrices_mutation_ld X (e_num_pops E) (a_theta A) (a_frozen A) (a_selfing A))"
  using assms
  by (auto simp: prepare_def Let_def try_bind_eq_Inr mutation_def split: prod.splits if_splits)

text \<open>A call that returns a state has passed through its steps without an error.\<close>

lemma integrate_Inr_loop:
  assumes "integrate X A = Some (Inr Y)"
  shows "\<exists>E s0 sf. prepare X A = Inr (E, s0) \<and> loop E s0 = Some (Inr sf)"
proof -
  from assms obtain E s0 where p: "prepare X A = Inr (E, s0)"
    by (cases "prepare X A") (auto simp: integrate_def)
  from assms p obtain r where r: "loop E s0 = Some r"
    and fin: "try_bind r (finish (a_rho A) (a_Y A)) = Inr Y"
    by (cases "loop E s0") (auto simp: integrate_def)
  from fin obtain sf where "r = Inr sf" by (auto simp: try_bind_eq_Inr)
  with p r show ?thesis by blast
qed

lemma next_step:
  assumes "loop E s = Some (Inr sf)" "l_elapsed_t s < e_T E"
  shows "\<exists>s'. step E s = Inr s' \<and> loop E s' = Some (Inr sf)"
  using assms by (cases "step E s") (auto simp: loop.simps)

lemma first_step:
  assumes "integrate X A = Some (Inr Y)" "0 < a_T A"
  shows "\<exists>E s0 s'. prepare X A = Inr (E, s0) \<and> reach E s0 s0 \<and> l_elapsed_t s0 < a_T A \<and>
           step E s0 = Inr s'"
proof -
  from assms(1) obtain E s0 where p: "prepare X A = Inr (E, s0)"
    by (cases "prepare X A") (auto simp: integrate_def)
  note pf = prepare_fields [OF p]
  from assms(1) p obtain r where r: "loop E s0 = Some r"
    and fin: "try_bind r (finish (a_rho A) (a_Y A)) = Inr Y"
    by (cases "loop E s0") (auto simp: integrate_def)
  from fin obtain s1 where s1: "r = Inr s1" by (auto simp: try_bind_eq_Inr)
  have lt: "l_elapsed_t s0 < e_T E" using pf assms(2) by simp
  with r s1 obtain s' where "step E s0 = Inr s'"
    by (cases "step E s0") (auto simp: loop.simps)
  with p lt pf show ?thesis by (auto intro: reach_init)
qed

text \<open>Unfolding the definitions runs a step on concrete numbers.\<close>

lemmas eval_defs = step_def step_dt_def step_nus_def must_rebuild_def assemble_def combine_def
  drift_def half_forward_def half_backward_def np_linalg_inv_def sp_factorized_def inv1_def
  solve1_def eye_def shape0_def madd_def msub_def smul_def dot_def vadd_def vsmul_def
  forward_ld_def backward_ld_def bound_def operand_def as_many_def as_one_def for_range_def
  for_each_def use_migration_def Let_def

lemma batch_first:
  assumes "prepare X1 A_batch = Inr (E, s0)" "step E s0 = Inr s'"
  shows "l_h s' = [667 / 1000] \<and> l_ys s' = Some [[1001 / 4500], [1 / 5000]]"
proof -
  from assms(1) have E: "E = \<lparr>e_X = X1, e_num_pops = 1, e_nu = NuFixed [1], e_T = 1,
       e_rho = RhoList [1, 2], e_m = None, e_frozen = None, e_Uh = [1 / 1000],
       e_Uld = Some [[1 / 1000]], e_R = Some (Many [[[- 1]], [[- 2]]]), e_M = None\<rparr>"
    and s0: "s0 = \<lparr>l_h = [1], l_y = None, l_ys = Some [[2], [3]], l_dt = 2 / 5, l_nus = [1],
       l_dt_last = 2 / 5, l_nus_last = [1], l_elapsed_t = 0, l_cache = None\<rparr>"
    by (simp_all add: prepare_def A_batch_def mutation_def use_migration_def Let_def X1_def)
  from assms(2) show ?thesis
    unfolding E s0
    by (auto simp add: eval_defs X1_def)
qed

text \<open>
  C1. At every integration step of \<^verbatim>\<open>integrate\<close> (every step taken from a state the
  loop reaches), with \<open>dt\<close> the step's size and \<open>A_h\<close>, \<open>A_ld\<close> the operators combined for
  the step's sizes: each LD vector becomes
  \<open>solve ((I + dt/2 A_ld) y + dt U_ld h)\<close> with \<open>h\<close> the heterozygosity vector from
  before its own update and \<open>solve\<close> the sparse factorization of \<open>I - dt/2 A_ld\<close>; the
  heterozygosity vector becomes \<open>inv(I - dt/2 A_h) ((I + dt/2 A_h) h + dt U_h)\<close> with
  the dense inverse.
\<close>

theorem integration_step_substeps:
  assumes "prepare X A = Inr (E, s0)" and "reach E s0 s" and "l_elapsed_t s < a_T A"
    and "step E s = Inr s'"
  shows "\<exists>Ab_h Ab_ld Ab2_h.
     combine E (step_nus E s) = Inr (Ab_h, Ab_ld) \<and>
     linalg_inv X (half_backward (step_dt E s) Ab_h) = Some Ab2_h \<and>
     e_Uh E = Matrices_mutation_h X (e_num_pops E) (a_theta A) (a_frozen A) (a_selfing A) \<and>
     l_h s' = dot Ab2_h (vadd (dot (half_forward (step_dt E s) Ab_h) (l_h s))
                              (vsmul (step_dt E s) (e_Uh E))) \<and>
     (case a_rho A of
        RhoNone \<Rightarrow> l_y s' = l_y s \<and> l_ys s' = l_ys s
      | RhoScalar _ \<Rightarrow>
          (\<exists>A_ld solve y Uld.
             Ab_ld = Some (One A_ld) \<and>
             factorized X (half_backward (step_dt E s) A_ld) = Some solve \<and>
             l_y s = Some y \<and> e_Uld E = Some Uld \<and>
             l_y s' = Some (solve (vadd (dot (half_forward (step_dt E s) A_ld) y)
                                        (vsmul (step_dt E s) (dot Uld (l_h s))))))
      | RhoList _ \<Rightarrow>
          (\<exists>As solves ys Uld ys'.
             Ab_ld = Some (Many As) \<and> length solves = length As \<and>
             (\<forall>i < length As.
                factorized X (half_backward (step_dt E s) (As ! i)) = Some (solves ! i)) \<and>
             l_ys s = Some ys \<and> e_Uld E = Some Uld \<and> length ys \<le> length As \<and>
             l_ys s' = Some ys' \<and> length ys' = length ys \<and>
             (\<forall>i < length ys.
                ys' ! i = (solves ! i) (vadd (dot (half_forward (step_dt E s) (As ! i)) (ys ! i))
                                            (vsmul (step_dt E s) (dot Uld (l_h s)))))))"
proof -
  note pf = prepare_fields [OF assms(1)]
  have ok: "cache_ok E s"
    using reach_cache_ok [OF assms(2) prepare_cache_ok [OF assms(1)]] .
  from step_parts [OF assms(4)] obtain c y1 ys1 where
    sel: "(if must_rebuild E s then assemble E (step_dt E s) (step_nus E s)
           else bound (l_cache s)) = Inr c"
    and fw: "forward_ld E c (step_dt E s) s = Inr (y1, ys1)"
    and bw: "backward_ld E c y1 ys1 = Inr (l_y s', l_ys s')"
    and h: "l_h s' = dot (c_Ab2_h c) (vadd (dot (c_Ab1_h c) (l_h s)) (vsmul (step_dt E s) (e_Uh E)))"
    and c: "l_cache s' = Some c"
    by blast
  from step_cache [OF ok assms(4)] c
  have fresh: "assemble E (step_dt E s) (step_nus E s) = Inr c" by simp
  from assemble_parts [OF fresh] obtain Ab_h Ab_ld where
    cmb: "combine E (step_nus E s) = Inr (Ab_h, Ab_ld)"
    and a1: "c_Ab1_h c = half_forward (step_dt E s) Ab_h"
    and a2: "linalg_inv (e_X E) (half_backward (step_dt E s) Ab_h) = Some (c_Ab2_h c)"
    and ld: "(case e_rho E of
        RhoNone \<Rightarrow> True
      | RhoScalar _ \<Rightarrow>
          (\<exists>A solve. Ab_ld = Some (One A) \<and>
             c_Ab1_ld c = Some (One (half_forward (step_dt E s) A)) \<and>
             c_Ab2_ld c = Some (One solve) \<and>
             factorized (e_X E) (half_backward (step_dt E s) A) = Some solve)
      | RhoList _ \<Rightarrow>
          (\<exists>As solves. Ab_ld = Some (Many As) \<and>
             c_Ab1_ld c = Some (Many (map (half_forward (step_dt E s)) As)) \<and>
             c_Ab2_ld c = Some (Many solves) \<and> length solves = length As \<and>
             (\<forall>i < length As.
                factorized (e_X E) (half_backward (step_dt E s) (As ! i)) = Some (solves ! i))))"
    by blast
  have ldpart: "(case a_rho A of
        RhoNone \<Rightarrow> l_y s' = l_y s \<and> l_ys s' = l_ys s
      | RhoScalar _ \<Rightarrow>
          (\<exists>A_ld solve y Uld.
             Ab_ld = Some (One A_ld) \<and>
             factorized X (half_backward (step_dt E s) A_ld) = Some solve \<and>
             l_y s = Some y \<and> e_Uld E = Some Uld \<and>
             l_y s' = Some (solve (vadd (dot (half_forward (step_dt E s) A_ld) y)
                                        (vsmul (step_dt E s) (dot Uld (l_h s))))))
      | RhoList _ \<Rightarrow>
          (\<exists>As solves ys Uld ys'.
             Ab_ld = Some (Many As) \<and> length solves = length As \<and>
             (\<forall>i < length As.
                factorized X (half_backward (step_dt E s) (As ! i)) = Some (solves ! i)) \<and>
             l_ys s = Some ys \<and> e_Uld E = Some Uld \<and> length ys \<le> length As \<and>
             l_ys s' = Some ys' \<and> length ys' = length ys \<and>
             (\<forall>i < length ys.
                ys' ! i = (solves ! i) (vadd (dot (half_forward (step_dt E s) (As ! i)) (ys ! i))
                                            (vsmul (step_dt E s) (dot Uld (l_h s)))))))"
  proof (cases "a_rho A")
    case RhoNone
    with ld_substeps_none [OF _ fw bw] pf(3) show ?thesis by simp
  next
    case (RhoScalar r)
    with ld pf(3) obtain A_ld solve where p: "Ab_ld = Some (One A_ld)"
      "c_Ab1_ld c = Some (One (half_forward (step_dt E s) A_ld))"
      "c_Ab2_ld c = Some (One solve)"
      "factorized (e_X E) (half_backward (step_dt E s) A_ld) = Some solve"
      by auto
    from RhoScalar pf(3) have "e_rho E = RhoScalar r" by simp
    from ld_substeps_scalar [OF this fw bw p(2,3)] p(1,4) pf(1) RhoScalar
    show ?thesis by auto
  next
    case (RhoList rs)
    with ld pf(3) obtain As solves where p: "Ab_ld = Some (Many As)"
      "c_Ab1_ld c = Some (Many (map (half_forward (step_dt E s)) As))"
      "c_Ab2_ld c = Some (Many solves)" "length solves = length As"
      "\<forall>i < length As.
          factorized (e_X E) (half_backward (step_dt E s) (As ! i)) = Some (solves ! i)"
      by auto
    from RhoList pf(3) have "e_rho E = RhoList rs" by simp
    from ld_substeps_list [OF this fw bw p(2,3)] p(4)
    obtain ys Uld ys' where q: "l_ys s = Some ys" "e_Uld E = Some Uld" "length ys \<le> length As"
      "l_ys s' = Some ys'" "length ys' = length ys"
      "\<forall>i < length ys. ys' ! i =
         (solves ! i) (vadd (dot (map (half_forward (step_dt E s)) As ! i) (ys ! i))
                            (vsmul (step_dt E s) (dot Uld (l_h s))))"
      by auto
    from q(3,6) have "\<forall>i < length ys. ys' ! i =
         (solves ! i) (vadd (dot (half_forward (step_dt E s) (As ! i)) (ys ! i))
                            (vsmul (step_dt E s) (dot Uld (l_h s))))"
      by simp
    with p q pf(1) RhoList show ?thesis by auto
  qed
  from cmb a1 a2 h pf(1) prepare_operators(1) [OF assms(1)] ldpart
  show ?thesis by auto
qed

theorem integration_step_substeps_witness:
  "\<exists>E s0 s'. prepare X1 A_batch = Inr (E, s0) \<and> reach E s0 s0 \<and>
     l_elapsed_t s0 < a_T A_batch \<and> step E s0 = Inr s' \<and>
     l_h s' = [667 / 1000] \<and> l_ys s' = Some [[1001 / 4500], [1 / 5000]] \<and>
     (\<exists>Ab_h Ab_ld Ab2_h.
        combine E (step_nus E s0) = Inr (Ab_h, Ab_ld) \<and>
        linalg_inv X1 (half_backward (step_dt E s0) Ab_h) = Some Ab2_h \<and>
        l_h s' = dot Ab2_h (vadd (dot (half_forward (step_dt E s0) Ab_h) (l_h s0))
                                 (vsmul (step_dt E s0) (e_Uh E))))"
proof -
  have run: "integrate X1 A_batch = Some (Inr [[2026021 / 189000000], [519 / 5000000], [4007 / 11000]])"
    by code_simp
  have T: "0 < a_T A_batch" by (simp add: A_batch_def)
  from first_step [OF run T] obtain E s0 s' where
    p: "prepare X1 A_batch = Inr (E, s0)" and r: "reach E s0 s0"
    and lt: "l_elapsed_t s0 < a_T A_batch" and st: "step E s0 = Inr s'"
    by blast
  from integration_step_substeps [OF p r lt st]
  have "\<exists>Ab_h Ab_ld Ab2_h.
        combine E (step_nus E s0) = Inr (Ab_h, Ab_ld) \<and>
        linalg_inv X1 (half_backward (step_dt E s0) Ab_h) = Some Ab2_h \<and>
        l_h s' = dot Ab2_h (vadd (dot (half_forward (step_dt E s0) Ab_h) (l_h s0))
                                 (vsmul (step_dt E s0) (e_Uh E)))"
    by blast
  with batch_first [OF p st] p r lt st show ?thesis by blast
qed

section \<open>Reuse of the assembled matrices\<close>





section \<open>Population sizes of a step\<close>

lemma reach_fixed_nus:
  assumes "reach E s0 s" "e_nu E = NuFixed v" "l_nus s0 = v"
  shows "l_nus s = v"
  using assms
proof (induction rule: reach.induct)
  case reach_init
  then show ?case by simp
next
  case (reach_step s s')
  from step_fields(4) [OF reach_step(3)] reach_step show ?case
    by (simp add: step_nus_def)
qed

lemma combine_h:
  assumes "combine E nus = Inr (Ab_h, Ab_ld)"
  shows "\<exists>Mh. Ab_h =
           (if use_migration (e_num_pops E) (e_m E)
            then madd (Matrices_drift_h (e_X E) (e_num_pops E) nus (e_frozen E)) Mh
            else Matrices_drift_h (e_X E) (e_num_pops E) nus (e_frozen E))"
  using assms
  by (cases "e_rho E")
     (auto simp: combine_def drift_def Let_def try_bind_eq_Inr split: if_splits prod.splits)

text \<open>
  C9. At every step, the step size is \<open>dt\<close> clipped to \<open>T - elapsed\<close>; when \<^verbatim>\<open>nu\<close> is
  callable the sizes of the step are \<open>nu (elapsed + dt/2)\<close> with that clipped \<open>dt\<close>, when
  \<^verbatim>\<open>nu\<close> is a vector they are that vector; and the operators the step applies are
  assembled from the drift matrix for these sizes.
\<close>

theorem sizes_evaluated_at_midpoint:
  assumes "prepare X A = Inr (E, s0)" and "reach E s0 s" and "l_elapsed_t s < a_T A"
    and "step E s = Inr s'"
  shows "step_dt E s =
           (if l_elapsed_t s + l_dt s > a_T A then a_T A - l_elapsed_t s else l_dt s) \<and>
         (\<forall>f. a_nu A = NuCallable f \<longrightarrow> step_nus E s = f (l_elapsed_t s + step_dt E s / 2)) \<and>
         (\<forall>v. a_nu A = NuFixed v \<longrightarrow> step_nus E s = v) \<and>
         (\<exists>Ab_h Ab_ld c Mh.
            combine E (step_nus E s) = Inr (Ab_h, Ab_ld) \<and>
            Ab_h = (if use_migration (e_num_pops E) (a_m A)
                    then madd (Matrices_drift_h X (e_num_pops E) (step_nus E s) (a_frozen A)) Mh
                    else Matrices_drift_h X (e_num_pops E) (step_nus E s) (a_frozen A)) \<and>
            assemble E (step_dt E s) (step_nus E s) = Inr c \<and> l_cache s' = Some c \<and>
            c_Ab1_h c = half_forward (step_dt E s) Ab_h \<and>
            l_h s' = dot (c_Ab2_h c) (vadd (dot (c_Ab1_h c) (l_h s))
                                           (vsmul (step_dt E s) (e_Uh E))))"
proof -
  note pf = prepare_fields [OF assms(1)]
  have fr: "e_frozen E = a_frozen A"
    using assms(1)
    by (auto simp: prepare_def Let_def try_bind_eq_Inr split: prod.splits if_splits)
  have ok: "cache_ok E s"
    using reach_cache_ok [OF assms(2) prepare_cache_ok [OF assms(1)]] .
  have dt: "step_dt E s =
           (if l_elapsed_t s + l_dt s > a_T A then a_T A - l_elapsed_t s else l_dt s)"
    using pf(2) by (simp add: step_dt_def)
  have callable: "step_nus E s = f (l_elapsed_t s + step_dt E s / 2)"
    if "a_nu A = NuCallable f" for f
    using that pf(4) by (simp add: step_nus_def)
  have fixed: "step_nus E s = v" if "a_nu A = NuFixed v" for v
  proof -
    from that pf have "e_nu E = NuFixed v" "l_nus s0 = v" by simp_all
    from reach_fixed_nus [OF assms(2) this] this(1) show ?thesis
      by (simp add: step_nus_def)
  qed
  from step_parts [OF assms(4)] obtain c where
    h: "l_h s' = dot (c_Ab2_h c) (vadd (dot (c_Ab1_h c) (l_h s)) (vsmul (step_dt E s) (e_Uh E)))"
    and c: "l_cache s' = Some c"
    by blast
  from step_cache [OF ok assms(4)] c
  have fresh: "assemble E (step_dt E s) (step_nus E s) = Inr c" by simp
  from assemble_parts [OF fresh] obtain Ab_h Ab_ld where
    cmb: "combine E (step_nus E s) = Inr (Ab_h, Ab_ld)"
    and a1: "c_Ab1_h c = half_forward (step_dt E s) Ab_h"
    by blast
  from combine_h [OF cmb] obtain Mh where
    M: "Ab_h = (if use_migration (e_num_pops E) (e_m E)
                then madd (Matrices_drift_h (e_X E) (e_num_pops E) (step_nus E s) (e_frozen E)) Mh
                else Matrices_drift_h (e_X E) (e_num_pops E) (step_nus E s) (e_frozen E))"
    by blast
  have "Ab_h = (if use_migration (e_num_pops E) (a_m A)
                    then madd (Matrices_drift_h X (e_num_pops E) (step_nus E s) (a_frozen A)) Mh
                    else Matrices_drift_h X (e_num_pops E) (step_nus E s) (a_frozen A))"
    using M pf(1,5) fr by simp
  with dt callable fixed cmb fresh c a1 h show ?thesis by blast
qed

theorem sizes_evaluated_at_midpoint_witness:
  "\<exists>E s0 s2 s3. prepare X1 A_growth = Inr (E, s0) \<and> reach E s0 s2 \<and>
     l_elapsed_t s2 = 4 / 5 \<and> l_elapsed_t s2 < a_T A_growth \<and> step E s2 = Inr s3 \<and>
     step_dt E s2 = 1 / 5 \<and> step_nus E s2 = [19 / 10] \<and>
     (\<exists>c. assemble E (1 / 5) [19 / 10] = Inr c \<and> l_cache s3 = Some c)"
proof -
  have run: "integrate X1 A_growth = Some (Inr [[3716596151 / 65874375000], [2003 / 4000]])"
    by code_simp
  from integrate_Inr_loop [OF run] obtain E s0 sf where
    p: "prepare X1 A_growth = Inr (E, s0)" and l0: "loop E s0 = Some (Inr sf)" by blast
  note pf = prepare_fields [OF p]
  have T: "e_T E = 1" "a_T A_growth = 1" and dt: "l_dt s0 = 2 / 5"
    and nu: "a_nu A_growth = NuCallable (\<lambda>t. [1 + t])"
    using pf by (simp_all add: A_growth_def)
  from next_step [OF l0] pf(8) T obtain s1 where
    st1: "step E s0 = Inr s1" and l1: "loop E s1 = Some (Inr sf)" by auto
  note f1 = step_fields [OF st1]
  have d0: "step_dt E s0 = 2 / 5" using T dt pf(8) by (simp add: step_dt_def)
  have e1: "l_elapsed_t s1 = 2 / 5" "l_dt s1 = 2 / 5" using f1 d0 pf(8) by simp_all
  from next_step [OF l1] e1 T obtain s2 where
    st2: "step E s1 = Inr s2" and l2: "loop E s2 = Some (Inr sf)" by auto
  note f2 = step_fields [OF st2]
  have d1: "step_dt E s1 = 2 / 5" using T e1 by (simp add: step_dt_def)
  have e2: "l_elapsed_t s2 = 4 / 5" "l_dt s2 = 2 / 5" using f2 d1 e1 by simp_all
  from next_step [OF l2] e2 T obtain s3 where st3: "step E s2 = Inr s3" by auto
  have r1: "reach E s0 s1" using reach_step [OF reach_init _ st1] pf(8) T by simp
  have r2: "reach E s0 s2" using reach_step [OF r1 _ st2] e1 T by simp
  have lt: "l_elapsed_t s2 < a_T A_growth" using e2 T by simp
  from sizes_evaluated_at_midpoint [OF p r2 lt st3] nu e2 T
  have a: "step_dt E s2 = 1 / 5" "step_nus E s2 = [19 / 10]"
    and b: "\<exists>c. assemble E (step_dt E s2) (step_nus E s2) = Inr c \<and> l_cache s3 = Some c"
    by auto
  from b have "\<exists>c. assemble E (1 / 5) [19 / 10] = Inr c \<and> l_cache s3 = Some c"
    unfolding a .
  with a p r2 e2(1) lt st3 show ?thesis by blast
qed

section \<open>Batched equilibrium\<close>

lemma traverse_total:
  "(\<And>x. x \<in> set xs \<Longrightarrow> \<exists>y. f x = Inr y) \<Longrightarrow> \<exists>ys. traverse f xs = Inr ys"
proof (induction xs)
  case Nil
  then show ?case by simp
next
  case (Cons x xs)
  from Cons.prems obtain y where y: "f x = Inr y" by fastforce
  from Cons obtain ys where "traverse f xs = Inr ys" by fastforce
  with y show ?case by simp
qed

lemma steady_state_scalar:
  assumes "0 < theta" "0 \<le> r"
  shows "steady_state X theta (RhoScalar r) SelfNone =
           try_bind (equilibrium_ld X theta r None) (\<lambda>y. Inr [y, [theta]])"
    and "0 \<le> f \<Longrightarrow> f \<le> 1 \<Longrightarrow>
         steady_state X theta (RhoScalar r) (SelfScalar f) =
           try_bind (equilibrium_ld X theta r (Some f)) (\<lambda>y. Inr [y, [theta * (1 - f / 2)]])"
  using assms by (simp_all add: steady_state_def check_rho_def)

lemma steady_state_list:
  assumes "0 < theta" "\<forall>r \<in> set rs. 0 \<le> r"
  shows "steady_state X theta (RhoList rs) SelfNone =
           try_bind (traverse (\<lambda>r. equilibrium_ld X theta r None) rs) (\<lambda>ys. Inr (ys @ [[theta]]))"
    and "0 \<le> f \<Longrightarrow> f \<le> 1 \<Longrightarrow>
         steady_state X theta (RhoList rs) (SelfScalar f) =
           try_bind (traverse (\<lambda>r. equilibrium_ld X theta r (Some f)) rs)
             (\<lambda>ys. Inr (ys @ [[theta * (1 - f / 2)]]))"
  using assms by (auto simp: steady_state_def check_rho_def list_ex_iff)

lemma steady_state_none:
  assumes "0 < theta"
  shows "steady_state X theta RhoNone SelfNone = Inr [[theta]]"
    and "0 \<le> f \<Longrightarrow> f \<le> 1 \<Longrightarrow>
         steady_state X theta RhoNone (SelfScalar f) = Inr [[theta * (1 - f / 2)]]"
  using assms by (simp_all add: steady_state_def check_rho_def)

text \<open>The batch and the single solves, for a fixed heterozygosity vector \<open>h\<close>.\<close>

lemma batch_vs_single:
  fixes g :: "real \<Rightarrow> error + vec"
  shows "try_bind (traverse g rs) (\<lambda>ys. Inr (ys @ [h])) = Inr Y \<longleftrightarrow>
         length Y = length rs + 1 \<and> last Y = h \<and>
         (\<forall>i < length rs. try_bind (g (rs ! i)) (\<lambda>y. Inr [y, h]) = Inr [Y ! i, last Y])"
proof
  assume "try_bind (traverse g rs) (\<lambda>ys. Inr (ys @ [h])) = Inr Y"
  then obtain ys where ys: "traverse g rs = Inr ys" "Y = ys @ [h]"
    by (auto simp: try_bind_eq_Inr)
  from traverse_Inr [OF ys(1)] ys(2)
  show "length Y = length rs + 1 \<and> last Y = h \<and>
         (\<forall>i < length rs. try_bind (g (rs ! i)) (\<lambda>y. Inr [y, h]) = Inr [Y ! i, last Y])"
    by (auto simp: nth_append)
next
  assume a: "length Y = length rs + 1 \<and> last Y = h \<and>
         (\<forall>i < length rs. try_bind (g (rs ! i)) (\<lambda>y. Inr [y, h]) = Inr [Y ! i, last Y])"
  then have Y: "Y = butlast Y @ [h]"
    by (metis Suc_eq_plus1 append_butlast_last_id length_0_conv nat.distinct(1))
  have len: "length (butlast Y) = length rs" using a by simp
  have "g (rs ! i) = Inr (butlast Y ! i)" if "i < length rs" for i
  proof -
    from a that have "try_bind (g (rs ! i)) (\<lambda>y. Inr [y, h]) = Inr [Y ! i, last Y]" by blast
    then have "g (rs ! i) = Inr (Y ! i)" by (auto simp: try_bind_eq_Inr)
    moreover have "Y ! i = butlast Y ! i" using that len by (simp add: nth_butlast)
    ultimately show ?thesis by simp
  qed
  with len have "traverse g rs = Inr (butlast Y)" by (simp add: traverse_Inr_iff)
  with Y show "try_bind (traverse g rs) (\<lambda>ys. Inr (ys @ [h])) = Inr Y" by simp
qed

text \<open>
  C5. For every \<open>\<theta> > 0\<close>, list of recombination rates \<open>[r_1, ..., r_k]\<close> with every
  \<open>r_i \<ge> 0\<close> and selfing rate that \<^verbatim>\<open>steady_state\<close> accepts (none, or a scalar in
  \<open>[0, 1]\<close>): \<^verbatim>\<open>steady_state\<close> returns \<open>Y\<close> exactly when \<open>Y\<close> has \<open>k + 1\<close> entries, its
  last entry is the heterozygosity vector, and its \<open>i\<close>-th entry is the LD vector that
  the call with the single rate \<open>r_i\<close> returns; and it does return whenever each of
  these single calls returns.
\<close>

theorem batch_equilibrium_matches_single:
  assumes "0 < theta" and "\<forall>r \<in> set rs. 0 \<le> r"
    and "sr = SelfNone \<or> (\<exists>f. sr = SelfScalar f \<and> 0 \<le> f \<and> f \<le> 1)"
  shows "(\<forall>Y. steady_state X theta (RhoList rs) sr = Inr Y \<longleftrightarrow>
            length Y = length rs + 1 \<and> steady_state X theta RhoNone sr = Inr [last Y] \<and>
            (\<forall>i < length rs.
               steady_state X theta (RhoScalar (rs ! i)) sr = Inr [Y ! i, last Y])) \<and>
         ((\<forall>i < length rs. \<exists>Z. steady_state X theta (RhoScalar (rs ! i)) sr = Inr Z) \<longrightarrow>
            (\<exists>Y. steady_state X theta (RhoList rs) sr = Inr Y))"
proof -
  obtain h sf where
    single: "\<And>r. 0 \<le> r \<Longrightarrow> steady_state X theta (RhoScalar r) sr =
                 try_bind (equilibrium_ld X theta r sf) (\<lambda>y. Inr [y, h])"
    and batch: "steady_state X theta (RhoList rs) sr =
                 try_bind (traverse (\<lambda>r. equilibrium_ld X theta r sf) rs) (\<lambda>ys. Inr (ys @ [h]))"
    and none: "steady_state X theta RhoNone sr = Inr [h]"
  proof (cases sr)
    case SelfNone
    with that [of None "[theta]"] steady_state_scalar(1) [OF assms(1)]
      steady_state_list(1) [OF assms(1,2)] steady_state_none(1) [OF assms(1)]
    show ?thesis by simp
  next
    case (SelfScalar f)
    with assms(3) have f: "0 \<le> f" "f \<le> 1" by auto
    with SelfScalar that [of "Some f" "[theta * (1 - f / 2)]"]
      steady_state_scalar(2) [OF assms(1)] steady_state_list(2) [OF assms(1,2)]
      steady_state_none(2) [OF assms(1)]
    show ?thesis by simp
  next
    case (SelfList fs)
    with assms(3) show ?thesis by simp
  qed
  have nn: "0 \<le> rs ! i" if "i < length rs" for i using assms(2) that by simp
  have iff: "steady_state X theta (RhoList rs) sr = Inr Y \<longleftrightarrow>
            length Y = length rs + 1 \<and> steady_state X theta RhoNone sr = Inr [last Y] \<and>
            (\<forall>i < length rs.
               steady_state X theta (RhoScalar (rs ! i)) sr = Inr [Y ! i, last Y])" for Y
    unfolding batch none batch_vs_single using single nn by auto
  have tot: "\<exists>Y. steady_state X theta (RhoList rs) sr = Inr Y"
    if all: "\<forall>i < length rs. \<exists>Z. steady_state X theta (RhoScalar (rs ! i)) sr = Inr Z"
  proof -
    have "\<exists>y. equilibrium_ld X theta r sf = Inr y" if "r \<in> set rs" for r
    proof -
      from that obtain i where i: "i < length rs" "r = rs ! i" by (auto simp: in_set_conv_nth)
      from all i(1) obtain Z where "steady_state X theta (RhoScalar (rs ! i)) sr = Inr Z"
        by blast
      with single [OF nn [OF i(1)]] i(2) show ?thesis
        by (cases "equilibrium_ld X theta (rs ! i) sf") auto
    qed
    from traverse_total [of rs "\<lambda>r. equilibrium_ld X theta r sf", OF this]
    show ?thesis unfolding batch by auto
  qed
  from iff tot show ?thesis by blast
qed

theorem batch_equilibrium_matches_single_witness:
  "steady_state X1 (1 / 1000) (RhoList [0, 10]) SelfNone
     = Inr [[1 / 3000000], [1 / 13000000], [1 / 1000]] \<and>
   steady_state X1 (1 / 1000) (RhoScalar 0) SelfNone = Inr [[1 / 3000000], [1 / 1000]] \<and>
   steady_state X1 (1 / 1000) (RhoScalar 10) SelfNone = Inr [[1 / 13000000], [1 / 1000]]"
proof -
  have run: "steady_state X1 (1 / 1000) (RhoList [0, 10]) SelfNone
             = Inr [[1 / 3000000], [1 / 13000000], [1 / 1000]]"
    by (simp add: steady_state_def check_rho_def equilibrium_ld_def X1_def sp_factorized_def
                  solve1_def madd_def dot_def vneg_def)
  have hyp: "(0 :: real) < 1 / 1000" "\<forall>r \<in> set [0, 10 :: real]. 0 \<le> r"
    "SelfNone = SelfNone \<or> (\<exists>f. SelfNone = SelfScalar f \<and> 0 \<le> f \<and> f \<le> 1)"
    by simp_all
  from batch_equilibrium_matches_single [OF hyp, of X1] run
  have "\<forall>i < length [0, 10 :: real].
          steady_state X1 (1 / 1000) (RhoScalar ([0, 10] ! i)) SelfNone
            = Inr [[[1 / 3000000], [1 / 13000000], [1 / 1000]] ! i,
                   last [[1 / 3000000], [1 / 13000000], [1 / 1000]]]"
    by blast
  from this [rule_format, of 0] this [rule_format, of 1] run show ?thesis by simp
qed

section \<open>Rejected parameters of the equilibrium solvers\<close>

lemma check_rho_negative:
  "negative_rho rho \<Longrightarrow> \<exists>msg. check_rho a b rho = Inl (ValueError msg)"
  by (cases rho) (simp_all add: negative_rho_def check_rho_def)

lemma check_rho_ok: "\<not> negative_rho rho \<Longrightarrow> check_rho a b rho = Inr ()"
  by (cases rho) (simp_all add: negative_rho_def check_rho_def)

lemma steady_state_rejects:
  assumes "theta \<le> 0 \<or> negative_rho rho \<or> (\<exists>f. sr = SelfScalar f \<and> (f < 0 \<or> 1 < f))"
  shows "\<exists>msg. \<forall>X. steady_state X theta rho sr = Inl (ValueError msg)"
proof (cases "theta \<le> 0")
  case True
  then show ?thesis by (simp add: steady_state_def)
next
  case pos: False
  show ?thesis
  proof (cases "negative_rho rho")
    case True
    from check_rho_negative [OF this] obtain msg where
      "check_rho ''rho cannot be negative'' ''rho values cannot be negative'' rho
         = Inl (ValueError msg)" by blast
    with pos show ?thesis by (simp add: steady_state_def)
  next
    case False
    with assms pos obtain f where "sr = SelfScalar f" "f < 0 \<or> 1 < f" by auto
    with pos check_rho_ok [OF False] show ?thesis by (auto simp: steady_state_def)
  qed
qed

lemma steady_state_two_pop_rejects:
  assumes shape: "nus = [nu0, nu1]" "1 < length m" "1 < length (m ! 0)" "0 < length (m ! 1)"
    and bad: "theta \<le> 0 \<or> negative_rho rho \<or>
              (\<exists>fs. sr = SelfList fs \<and> list_ex (\<lambda>f. f < 0 \<or> 1 < f) fs) \<or>
              nu0 \<le> 0 \<or> nu1 \<le> 0 \<or> m ! 0 ! 1 \<le> 0 \<or> m ! 1 ! 0 \<le> 0"
  shows "\<exists>msg. \<forall>X. steady_state_two_pop X nus m rho theta sr = Inl (ValueError msg)"
proof -
  have m01: "try_bind (py_index m 0) (\<lambda>row. py_index row 1) = Inr (m ! 0 ! 1)"
    and m10: "try_bind (py_index m 1) (\<lambda>row. py_index row 0) = Inr (m ! 1 ! 0)"
    using shape by (auto simp: py_index_def)
  show ?thesis
  proof (cases "negative_rho rho")
    case True
    from check_rho_negative [OF this] obtain msg where
      "check_rho ''recombination rate cannot be negative''
                 ''recombination rate cannot be negative'' rho = Inl (ValueError msg)" by blast
    with shape(1) m01 m10 show ?thesis by (simp add: steady_state_two_pop_def)
  next
    case nn: False
    note ok = check_rho_ok [OF nn]
    show ?thesis
    proof (cases "theta \<le> 0 \<or> m ! 0 ! 1 \<le> 0 \<or> m ! 1 ! 0 \<le> 0 \<or> nu0 \<le> 0 \<or> nu1 \<le> 0")
      case True
      with shape(1) m01 m10 ok show ?thesis
        by (cases "theta \<le> 0") (simp_all add: steady_state_two_pop_def)
    next
      case False
      with bad nn obtain fs where fs: "sr = SelfList fs" "list_ex (\<lambda>f. f < 0 \<or> 1 < f) fs"
        by auto
      with False shape(1) m01 m10 ok show ?thesis
        by (cases "length fs = 2") (simp_all add: steady_state_two_pop_def)
    qed
  qed
qed

text \<open>
  C7. A call of \<^verbatim>\<open>steady_state\<close> with \<open>\<theta> \<le> 0\<close>, a negative recombination rate or a
  scalar selfing rate outside \<open>[0, 1]\<close>, and a call of \<^verbatim>\<open>steady_state_two_pop\<close> (on two
  sizes and a migration matrix that has the entries \<^verbatim>\<open>m[0][1]\<close> and \<^verbatim>\<open>m[1][0]\<close>) with
  \<open>\<theta> \<le> 0\<close>, a negative recombination rate, a selfing rate outside \<open>[0, 1]\<close>, a
  non-positive size or a non-positive \<^verbatim>\<open>m[0][1]\<close> or \<^verbatim>\<open>m[1][0]\<close>, raises a
  \<^verbatim>\<open>ValueError\<close>. The error is the same whatever the operator builders and the linear
  solvers are: none of them is consulted.
\<close>

theorem invalid_parameters_raise_value_error:
  "(theta \<le> 0 \<or> negative_rho rho \<or> (\<exists>f. sr = SelfScalar f \<and> (f < 0 \<or> 1 < f)) \<longrightarrow>
      (\<exists>msg. \<forall>X. steady_state X theta rho sr = Inl (ValueError msg))) \<and>
   (nus = [nu0, nu1] \<and> 1 < length m \<and> 1 < length (m ! 0) \<and> 0 < length (m ! 1) \<and>
    (theta \<le> 0 \<or> negative_rho rho \<or>
     (\<exists>fs. sr2 = SelfList fs \<and> list_ex (\<lambda>f. f < 0 \<or> 1 < f) fs) \<or>
     nu0 \<le> 0 \<or> nu1 \<le> 0 \<or> m ! 0 ! 1 \<le> 0 \<or> m ! 1 ! 0 \<le> 0) \<longrightarrow>
      (\<exists>msg. \<forall>X. steady_state_two_pop X nus m rho theta sr2 = Inl (ValueError msg)))"
  using steady_state_rejects [of theta rho sr]
    steady_state_two_pop_rejects [of nus nu0 nu1 m theta rho sr2]
  by blast

theorem invalid_parameters_raise_value_error_witness:
  "(\<exists>msg. \<forall>X. steady_state X (1 / 1000) (RhoList [0, - 1]) SelfNone = Inl (ValueError msg)) \<and>
   (\<exists>msg. \<forall>X. steady_state_two_pop X [1, 2] [[0, 0], [1, 0]] RhoNone (1 / 1000) SelfNone
              = Inl (ValueError msg)) \<and>
   steady_state X1 (1 / 1000) (RhoList [0, - 1]) SelfNone
     = Inl (ValueError ''rho values cannot be negative'')"
proof -
  have a: "negative_rho (RhoList [0, - 1])" by (simp add: negative_rho_def)
  have b: "[1, 2 :: real] = [1, 2] \<and> 1 < length [[0, 0], [1, 0 :: real]] \<and>
           1 < length ([[0, 0], [1, 0 :: real]] ! 0) \<and> 0 < length ([[0, 0], [1, 0 :: real]] ! 1) \<and>
           [[0, 0], [1, 0 :: real]] ! 0 ! 1 \<le> 0"
    by simp
  have c: "steady_state X1 (1 / 1000) (RhoList [0, - 1]) SelfNone
     = Inl (ValueError ''rho values cannot be negative'')"
    by (simp add: steady_state_def check_rho_def)
  from invalid_parameters_raise_value_error
         [of "1 / 1000" "RhoList [0, - 1]" SelfNone "[1, 2]" 1 2 "[[0, 0], [1, 0]]" SelfNone] a
  have "\<exists>msg. \<forall>X. steady_state X (1 / 1000) (RhoList [0, - 1]) SelfNone = Inl (ValueError msg)"
    by blast
  moreover
  from invalid_parameters_raise_value_error
         [of "1 / 1000" RhoNone SelfNone "[1, 2]" 1 2 "[[0, 0], [1, 0]]" SelfNone] b
  have "\<exists>msg. \<forall>X. steady_state_two_pop X [1, 2] [[0, 0], [1, 0]] RhoNone (1 / 1000) SelfNone
              = Inl (ValueError msg)"
    by blast
  ultimately show ?thesis using c by blast
qed

section \<open>Zero duration\<close>









section \<open>Parameters that the integrator does not check\<close>







section \<open>The shape of the state and of the recombination rates\<close>













end
